theory Spec2Isabelle
  imports Complex_Main "HOL-Library.AList"
begin

section \<open>The face recogniser of \<^verbatim>\<open>attendance/utils.py\<close>\<close>

text \<open>
  The class \<^verbatim>\<open>FaceRecognizer\<close> holds a detector (\<^verbatim>\<open>self.mtcnn\<close>), an
  embedding network (\<^verbatim>\<open>self.resnet\<close>) and the dictionary \<^verbatim>\<open>self.known_faces\<close>.
  The two networks and \<^verbatim>\<open>pickle.loads\<close> are library code: they are parameters of
  the model, and may raise. NumPy's floating-point numbers are read as real numbers;
  the one place where a real-number reading would hide what NumPy does, the division
  by a zero norm, is a case of its own.
\<close>

subsection \<open>Data\<close>

datatype py_error = ValueError | KeyError | UnpicklingError | DatabaseError | RuntimeError

type_synonym embedding = "real list"

text \<open>A detection box is the array \<^verbatim>\<open>[x1, y1, x2, y2]\<close>; \<open>b0\<close> is \<^verbatim>\<open>box[0]\<close>.\<close>

record box =
  b0 :: real
  b1 :: real
  b2 :: real
  b3 :: real

text \<open>
  A decoded image: \<open>shape0\<close> rows, \<open>shape1\<close> columns, \<open>shape2\<close> channels, and
  its pixel data. The Python value \<^verbatim>\<open>None\<close> is \<open>None :: frame option\<close>.
\<close>

record frame =
  shape0 :: nat
  shape1 :: nat
  shape2 :: nat
  pixels :: "nat list"

definition frame_size :: "frame \<Rightarrow> nat" where
  "frame_size f = shape0 f * shape1 f * shape2 f"

text \<open>The value stored under a user id in \<^verbatim>\<open>known_faces\<close>.\<close>

record face_entry =
  encoding :: embedding
  entry_user_id :: nat

text \<open>
  \<open>mtcnn\<close> stands for \<^verbatim>\<open>cv2.cvtColor\<close> followed by \<^verbatim>\<open>self.mtcnn.detect\<close>: it raises,
  or returns the pair \<^verbatim>\<open>(boxes, probs)\<close>, each of which may be \<^verbatim>\<open>None\<close>.
  \<open>resnet\<close> stands for lines 82 to 90 of \<^verbatim>\<open>get_face_embedding\<close> (resize, colour
  conversion, the network, flatten) applied to the crop \<^verbatim>\<open>frame[y1:y2, x1:x2]\<close>, given
  as the frame and \<open>(x1, y1, x2, y2)\<close>. \<open>known_faces\<close> is a dictionary in insertion
  order.
\<close>

record recognizer =
  mtcnn :: "frame \<Rightarrow> py_error + (box list option \<times> real list option)"
  resnet :: "frame \<Rightarrow> int \<times> int \<times> int \<times> int \<Rightarrow> py_error + embedding"
  known_faces :: "(nat \<times> face_entry) list"

text \<open>A row of the table \<^verbatim>\<open>FaceProfile\<close> (\<^verbatim>\<open>attendance/models.py\<close>).\<close>

record face_profile =
  user_id :: nat
  face_encoding :: "nat list option"
  is_active :: bool

text \<open>The dictionary \<^verbatim>\<open>process_frame\<close> returns; an absent key is \<open>None\<close>.\<close>

record verdict =
  is_valid :: bool
  error :: "string option"
  face_location :: "box option"
  face_count :: "nat option"

definition reject :: "string \<Rightarrow> verdict" where
  "reject msg = \<lparr>is_valid = False, error = Some msg, face_location = None, face_count = None\<rparr>"

subsection \<open>Detection\<close>

definition detect_faces :: "recognizer \<Rightarrow> frame option \<Rightarrow> box list" where
  "detect_faces self fr =
     (case fr of
        None \<Rightarrow> []
      | Some f \<Rightarrow>
          if frame_size f = 0 then []
          else (case mtcnn self f of
                  Inl e \<Rightarrow> []
                | Inr (Some boxes, Some probs) \<Rightarrow>
                    map fst (filter (\<lambda>(bx, prob). prob > 0.95) (zip boxes probs))
                | Inr _ \<Rightarrow> []))"

subsection \<open>Frame validation\<close>

text \<open>Python's \<^verbatim>\<open>max(xs, key=k)\<close>: the first element with the greatest key; it raises on \<^verbatim>\<open>[]\<close>.\<close>

fun max_from :: "('a \<Rightarrow> real) \<Rightarrow> 'a \<Rightarrow> 'a list \<Rightarrow> 'a" where
  "max_from k best [] = best"
| "max_from k best (x # xs) = max_from k (if k x > k best then x else best) xs"

definition py_max :: "('a \<Rightarrow> real) \<Rightarrow> 'a list \<Rightarrow> py_error + 'a" where
  "py_max k xs = (case xs of [] \<Rightarrow> Inl ValueError | x # rest \<Rightarrow> Inr (max_from k x rest))"

definition box_area :: "box \<Rightarrow> real" where
  "box_area bx = (b2 bx - b0 bx) * (b3 bx - b1 bx)"

definition process_frame_body :: "recognizer \<Rightarrow> frame option \<Rightarrow> py_error + verdict" where
  "process_frame_body self fr =
     (case fr of
        None \<Rightarrow> Inr (reject ''Empty image received'')
      | Some f \<Rightarrow>
          if frame_size f = 0 then Inr (reject ''Empty image received'')
          else
            let boxes = detect_faces self fr in
            if length boxes = 0 then
              Inr (reject ''No faces detected. Please ensure your face is visible and well-lit'')
            else if length boxes > 1 then
              Inr (reject ''Multiple faces detected. Please ensure only your face is in the frame'')
            else
              (case py_max box_area boxes of
                 Inl e \<Rightarrow> Inl e
               | Inr main_box \<Rightarrow>
                   let face_height = b3 main_box - b1 main_box;
                       face_width = b2 main_box - b0 main_box
                   in
                   if face_height < real (shape0 f) * 0.2 then
                     Inr (reject ''Please move closer to the camera'')
                   else if face_width < real (shape1 f) * 0.2 then
                     Inr (reject ''Please center your face in the frame'')
                   else
                     Inr \<lparr>is_valid = True, error = None, face_location = Some main_box,
                          face_count = Some (length boxes)\<rparr>))"

text \<open>The \<^verbatim>\<open>try\<close> around the body turns every exception into a rejection.\<close>

definition process_frame :: "recognizer \<Rightarrow> frame option \<Rightarrow> verdict" where
  "process_frame self fr =
     (case process_frame_body self fr of
        Inl e \<Rightarrow> reject ''Error processing image''
      | Inr v \<Rightarrow> v)"

subsection \<open>Embedding extraction\<close>

text \<open>\<^verbatim>\<open>int(x)\<close> on a float truncates towards zero.\<close>

definition py_int :: "real \<Rightarrow> int" where
  "py_int x = (if 0 \<le> x then \<lfloor>x\<rfloor> else \<lceil>x\<rceil>)"

text \<open>
  The bounds of the slice \<^verbatim>\<open>a[start:stop]\<close> on an axis of length \<open>n\<close>: a negative
  index counts from the end, and both are clipped to the axis.
\<close>

definition slice_index :: "nat \<Rightarrow> int \<Rightarrow> int" where
  "slice_index n i = (if i < 0 then max 0 (i + int n) else min i (int n))"

definition slice_len :: "nat \<Rightarrow> int \<Rightarrow> int \<Rightarrow> nat" where
  "slice_len n start stop = nat (slice_index n stop - slice_index n start)"

definition l2_norm :: "embedding \<Rightarrow> real" where
  "l2_norm v = sqrt (sum_list (map (\<lambda>x. x * x) v))"

text \<open>
  What \<^verbatim>\<open>get_face_embedding\<close> returns when it does not return \<^verbatim>\<open>None\<close>: the
  normalised vector, or, when the network's output has norm zero, the array of NaN
  that NumPy's division yields (NumPy warns, and does not raise).
\<close>

datatype face_vec = Nan_vec | Vec embedding

definition get_face_embedding :: "recognizer \<Rightarrow> frame option \<Rightarrow> box \<Rightarrow> face_vec option" where
  "get_face_embedding self fr bx =
     (case fr of
        None \<Rightarrow> None
      | Some f \<Rightarrow>
          if frame_size f = 0 then None
          else
            let x1 = py_int (b0 bx); y1 = py_int (b1 bx);
                x2 = py_int (b2 bx); y2 = py_int (b3 bx);
                padding = py_int (real_of_int (x2 - x1) * 0.1);
                x1 = max 0 (x1 - padding);
                y1 = max 0 (y1 - padding);
                x2 = min (int (shape1 f)) (x2 + padding);
                y2 = min (int (shape0 f)) (y2 + padding)
            in
            if slice_len (shape0 f) y1 y2 * slice_len (shape1 f) x1 x2 * shape2 f = 0 then None
            else (case resnet self f (x1, y1, x2, y2) of
                    Inl e \<Rightarrow> None
                  | Inr raw \<Rightarrow>
                      if l2_norm raw = 0 then Some Nan_vec
                      else Some (Vec (map (\<lambda>x. x / l2_norm raw) raw))))"

subsection \<open>Matching\<close>

text \<open>\<^verbatim>\<open>np.dot\<close> on two one-dimensional arrays raises when their lengths differ.\<close>

definition dot :: "embedding \<Rightarrow> embedding \<Rightarrow> real" where
  "dot a b = sum_list (map (\<lambda>(x, y). x * y) (zip a b))"

definition np_dot :: "embedding \<Rightarrow> embedding \<Rightarrow> py_error + real" where
  "np_dot a b = (if length a = length b then Inr (dot a b) else Inl ValueError)"

text \<open>\<^verbatim>\<open>getattr(settings, 'FACE_RECOGNITION_TOLERANCE', 0.8)\<close>; the setting may be absent.\<close>

definition threshold :: "real option \<Rightarrow> real" where
  "threshold settings = (case settings of None \<Rightarrow> 0.8 | Some t \<Rightarrow> t)"

text \<open>
  Lines 139 to 147 of \<^verbatim>\<open>identify_user\<close>, and the same lines 178 to 186 of
  \<^verbatim>\<open>verify_user_face\<close>: the frame is validated only when no face location is
  given. \<open>Inr None\<close> is the early return of the caller.
\<close>

definition query_embedding ::
  "recognizer \<Rightarrow> frame option \<Rightarrow> box option \<Rightarrow> py_error + face_vec option" where
  "query_embedding self fr loc =
     (case loc of
        Some l \<Rightarrow> Inr (get_face_embedding self fr l)
      | None \<Rightarrow>
          let result = process_frame self fr in
          if \<not> is_valid result then Inr None
          else (case face_location result of
                  None \<Rightarrow> Inl KeyError
                | Some l \<Rightarrow> Inr (get_face_embedding self fr l)))"

text \<open>The loop over \<^verbatim>\<open>self.known_faces.items()\<close>, with its two variables as the state.\<close>

fun match_loop ::
  "embedding \<Rightarrow> (nat \<times> face_entry) list \<Rightarrow> nat option \<times> real \<Rightarrow> py_error + (nat option \<times> real)" where
  "match_loop emb [] st = Inr st"
| "match_loop emb ((uid, data) # rest) (best_match, best_similarity) =
     (case np_dot emb (encoding data) of
        Inl e \<Rightarrow> Inl e
      | Inr similarity \<Rightarrow>
          match_loop emb rest
            (if similarity > best_similarity then (Some uid, similarity)
             else (best_match, best_similarity)))"

text \<open>
  With the array of NaN every similarity is NaN (or \<^verbatim>\<open>np.dot\<close> raises), no comparison
  holds, \<^verbatim>\<open>best_match\<close> stays \<^verbatim>\<open>None\<close>, and that is what is returned.
\<close>

definition identify_user_body ::
  "recognizer \<Rightarrow> real option \<Rightarrow> frame option \<Rightarrow> box option \<Rightarrow> py_error + nat option" where
  "identify_user_body self settings fr loc =
     (if known_faces self = [] then Inr None
      else (case query_embedding self fr loc of
              Inl e \<Rightarrow> Inl e
            | Inr None \<Rightarrow> Inr None
            | Inr (Some Nan_vec) \<Rightarrow> Inr None
            | Inr (Some (Vec emb)) \<Rightarrow>
                (case match_loop emb (known_faces self) (None, - 1) of
                   Inl e \<Rightarrow> Inl e
                 | Inr (best_match, best_similarity) \<Rightarrow>
                     if best_similarity > threshold settings then Inr best_match
                     else Inr None)))"

definition identify_user ::
  "recognizer \<Rightarrow> real option \<Rightarrow> frame option \<Rightarrow> box option \<Rightarrow> nat option" where
  "identify_user self settings fr loc =
     (case identify_user_body self settings fr loc of Inl e \<Rightarrow> None | Inr r \<Rightarrow> r)"

text \<open>
  \<^verbatim>\<open>user_id in self.known_faces\<close> and \<^verbatim>\<open>self.known_faces[user_id]\<close> are the lookup
  \<open>map_of\<close>. With the array of NaN the similarity is NaN and \<^verbatim>\<open>similarity > threshold\<close>
  is false.
\<close>

definition verify_user_face_body ::
  "recognizer \<Rightarrow> real option \<Rightarrow> nat \<Rightarrow> frame option \<Rightarrow> box option \<Rightarrow> py_error + bool" where
  "verify_user_face_body self settings uid fr loc =
     (case map_of (known_faces self) uid of
        None \<Rightarrow> Inr False
      | Some data \<Rightarrow>
          (case query_embedding self fr loc of
             Inl e \<Rightarrow> Inl e
           | Inr None \<Rightarrow> Inr False
           | Inr (Some Nan_vec) \<Rightarrow> Inr False
           | Inr (Some (Vec emb)) \<Rightarrow>
               (case np_dot emb (encoding data) of
                  Inl e \<Rightarrow> Inl e
                | Inr similarity \<Rightarrow> Inr (similarity > threshold settings))))"

definition verify_user_face ::
  "recognizer \<Rightarrow> real option \<Rightarrow> nat \<Rightarrow> frame option \<Rightarrow> box option \<Rightarrow> bool" where
  "verify_user_face self settings uid fr loc =
     (case verify_user_face_body self settings uid fr loc of Inl e \<Rightarrow> False | Inr r \<Rightarrow> r)"

subsection \<open>Rebuilding the index\<close>

text \<open>\<^verbatim>\<open>if profile.face_encoding:\<close> holds for a stored, non-empty byte string.\<close>

definition truthy :: "nat list option \<Rightarrow> bool" where
  "truthy enc = (case enc of None \<Rightarrow> False | Some bs \<Rightarrow> bs \<noteq> [])"

text \<open>
  The loop of \<^verbatim>\<open>load_known_faces\<close>; \<open>loads\<close> is \<^verbatim>\<open>pickle.loads\<close>. Assigning to a key
  that is present keeps its place in the dictionary (\<open>AList.update\<close>).
\<close>

fun load_loop ::
  "(nat list \<Rightarrow> py_error + embedding) \<Rightarrow> face_profile list \<Rightarrow> (nat \<times> face_entry) list
     \<Rightarrow> py_error + (nat \<times> face_entry) list" where
  "load_loop loads [] kf = Inr kf"
| "load_loop loads (profile # rest) kf =
     (if truthy (face_encoding profile) then
        (case loads (the (face_encoding profile)) of
           Inl e \<Rightarrow> Inl e
         | Inr enc \<Rightarrow>
             load_loop loads rest
               (AList.update (user_id profile)
                  \<lparr>encoding = enc, entry_user_id = user_id profile\<rparr> kf))
      else load_loop loads rest kf)"

text \<open>
  \<open>db\<close> is the result of \<^verbatim>\<open>FaceProfile.objects.all()\<close>, which may raise. The handler
  logs the exception and leaves the index empty.
\<close>

definition load_known_faces ::
  "(nat list \<Rightarrow> py_error + embedding) \<Rightarrow> py_error + face_profile list \<Rightarrow> recognizer \<Rightarrow> recognizer" where
  "load_known_faces loads db self =
     (case (case db of Inl e \<Rightarrow> Inl e | Inr profiles \<Rightarrow> load_loop loads profiles []) of
        Inl e \<Rightarrow> self\<lparr>known_faces := []\<rparr>
      | Inr kf \<Rightarrow> self\<lparr>known_faces := kf\<rparr>)"

subsection \<open>Notions used to state the properties\<close>

text \<open>The similarity of a query embedding to every entry of the index, in index order.\<close>

definition similarities :: "embedding \<Rightarrow> (nat \<times> face_entry) list \<Rightarrow> real list" where
  "similarities emb kf = map (\<lambda>(uid, data). dot emb (encoding data)) kf"

subsection \<open>Concrete inputs\<close>

text \<open>
  A 10 by 10 colour frame, a detector that reports the given boxes and confidences, a
  network whose output is \<open>[1, 0]\<close>, and an index of two users.
\<close>

definition ex_frame :: frame where
  "ex_frame = \<lparr>shape0 = 10, shape1 = 10, shape2 = 3, pixels = []\<rparr>"

definition ex_box :: "real \<Rightarrow> real \<Rightarrow> real \<Rightarrow> real \<Rightarrow> box" where
  "ex_box x1 y1 x2 y2 = \<lparr>b0 = x1, b1 = y1, b2 = x2, b3 = y2\<rparr>"

definition ex_index :: "(nat \<times> face_entry) list" where
  "ex_index = [(1, \<lparr>encoding = [1, 0], entry_user_id = 1\<rparr>),
               (2, \<lparr>encoding = [0, 1], entry_user_id = 2\<rparr>)]"

definition ex_recognizer :: "box list \<Rightarrow> real list \<Rightarrow> recognizer" where
  "ex_recognizer boxes probs =
     \<lparr>mtcnn = (\<lambda>f. Inr (Some boxes, Some probs)),
      resnet = (\<lambda>f c. Inr [1, 0]),
      known_faces = ex_index\<rparr>"

text \<open>
  A deserialiser that fails on the byte string \<open>[0]\<close> and yields \<open>[1, 0]\<close> on every
  other one, and a row of \<^verbatim>\<open>FaceProfile\<close>.
\<close>

definition ex_loads :: "nat list \<Rightarrow> py_error + embedding" where
  "ex_loads bs = (if bs = [0] then Inl UnpicklingError else Inr [1, 0])"

definition ex_profile :: "nat \<Rightarrow> nat list option \<Rightarrow> bool \<Rightarrow> face_profile" where
  "ex_profile uid enc active = \<lparr>user_id = uid, face_encoding = enc, is_active = active\<rparr>"

section \<open>Properties\<close>

subsection \<open>The concrete inputs, evaluated\<close>

lemmas ex_defs = ex_frame_def ex_box_def ex_index_def ex_recognizer_def

lemma ex_emb:
  "get_face_embedding (ex_recognizer bs ps) (Some ex_frame) (ex_box 0 0 10 10) = Some (Vec [1, 0])"
  by (simp add: get_face_embedding_def frame_size_def ex_defs py_int_def slice_len_def
        slice_index_def l2_norm_def Let_def)

lemma ex_query:
  "query_embedding (ex_recognizer bs ps) (Some ex_frame) (Some (ex_box 0 0 10 10))
     = Inr (Some (Vec [1, 0]))"
  by (simp add: query_embedding_def ex_emb)

lemma ex_known: "known_faces (ex_recognizer bs ps) = ex_index"
  by (simp add: ex_recognizer_def)

lemma ex_lookup: "map_of ex_index 1 = Some \<lparr>encoding = [1, 0], entry_user_id = 1\<rparr>"
  by (simp add: ex_index_def)

lemma ex_similarities: "similarities [1, 0] ex_index = [1, 0]"
  by (simp add: similarities_def ex_index_def dot_def)

lemma ex_identify:
  "identify_user (ex_recognizer bs ps) None (Some ex_frame) (Some (ex_box 0 0 10 10)) = Some 1"
  by (simp add: identify_user_def identify_user_body_def ex_query ex_known
        ex_index_def np_dot_def dot_def threshold_def)

lemma ex_verify:
  "verify_user_face (ex_recognizer bs ps) None 1 (Some ex_frame) (Some (ex_box 0 0 10 10))"
  by (simp add: verify_user_face_def verify_user_face_body_def ex_query ex_known
        ex_index_def np_dot_def dot_def threshold_def)

subsection \<open>The matching loop\<close>

lemma Max_insert_absorb:
  fixes a b :: real
  assumes "finite A" and "a \<le> b"
  shows "Max (insert a (insert b A)) = Max (insert b A)"
proof -
  have "b \<le> Max (insert b A)" using assms(1) by simp
  with assms(2) have "a \<le> Max (insert b A)" by (rule order_trans)
  moreover have "Max (insert a (insert b A)) = max a (Max (insert b A))"
    using assms(1) by (intro Max_insert) simp_all
  ultimately show ?thesis by (simp add: max_def)
qed

lemma match_loop_step:
  "match_loop emb ((uid, data) # kf) (bm, bs) = Inr r \<Longrightarrow>
     match_loop emb kf (if dot emb (encoding data) > bs then (Some uid, dot emb (encoding data))
                        else (bm, bs)) = Inr r"
  by (simp add: np_dot_def split: if_splits)

text \<open>
  When the loop ends without an exception, \<^verbatim>\<open>best_similarity\<close> is the greatest of its
  initial value and all similarities, and \<^verbatim>\<open>best_match\<close> changed only if
  \<^verbatim>\<open>best_similarity\<close> grew.
\<close>

lemma match_loop_result:
  "match_loop emb kf (bm, bs) = Inr (bm', bs') \<Longrightarrow>
     bs' = Max (insert bs (set (similarities emb kf))) \<and>
     ((bm' = bm \<and> bs' = bs) \<or> (bm' \<noteq> None \<and> bs < bs'))"
proof (induction kf arbitrary: bm bs)
  case Nil
  then show ?case by (simp add: similarities_def)
next
  case (Cons p kf)
  obtain uid data where p: "p = (uid, data)" by (cases p)
  define s where "s = dot emb (encoding data)"
  have sims: "set (similarities emb (p # kf)) = insert s (set (similarities emb kf))"
    by (simp add: similarities_def p s_def)
  have fin: "finite (set (similarities emb kf))" by simp
  from Cons.prems have
    rest: "match_loop emb kf (if s > bs then (Some uid, s) else (bm, bs)) = Inr (bm', bs')"
    unfolding p s_def by (rule match_loop_step)
  show ?case
  proof (cases "s > bs")
    case True
    with rest have "match_loop emb kf (Some uid, s) = Inr (bm', bs')" by simp
    note ih = Cons.IH [OF this]
    have m: "bs' = Max (insert s (set (similarities emb kf)))" using ih by blast
    have d: "(bm' = Some uid \<and> bs' = s) \<or> (bm' \<noteq> None \<and> s < bs')" using ih by blast
    from True have "bs \<le> s" by simp
    from Max_insert_absorb [OF fin this] m
    have m': "bs' = Max (insert bs (set (similarities emb (p # kf))))"
      by (simp only: sims)
    from d True have "bm' \<noteq> None \<and> bs < bs'" by auto
    with m' show ?thesis by blast
  next
    case False
    with rest have "match_loop emb kf (bm, bs) = Inr (bm', bs')" by simp
    note ih = Cons.IH [OF this]
    have m: "bs' = Max (insert bs (set (similarities emb kf)))" using ih by blast
    have d: "(bm' = bm \<and> bs' = bs) \<or> (bm' \<noteq> None \<and> bs < bs')" using ih by blast
    from False have "s \<le> bs" by simp
    from Max_insert_absorb [OF fin this] m
    have m': "bs' = Max (insert bs (set (similarities emb (p # kf))))"
      by (simp only: sims insert_commute [of bs s])
    with d show ?thesis by blast
  qed
qed

lemma match_loop_found:
  assumes "match_loop emb kf (None, bs) = Inr (Some u, bs')"
  shows "kf \<noteq> [] \<and> bs' = Max (set (similarities emb kf))"
proof -
  from match_loop_result [OF assms]
  have m: "bs' = Max (insert bs (set (similarities emb kf)))" and lt: "bs < bs'" by simp_all
  have ne: "kf \<noteq> []"
  proof
    assume "kf = []"
    with m lt show False by (simp add: similarities_def)
  qed
  then have sne: "set (similarities emb kf) \<noteq> {}" by (simp add: similarities_def)
  then have "Max (insert bs (set (similarities emb kf))) = max bs (Max (set (similarities emb kf)))"
    by simp
  with m lt have "bs' = Max (set (similarities emb kf))" by (simp add: max_def split: if_splits)
  with ne show ?thesis by simp
qed

lemma identify_some:
  assumes "identify_user self settings fr loc = Some u"
  shows "\<exists>emb. query_embedding self fr loc = Inr (Some (Vec emb)) \<and> known_faces self \<noteq> [] \<and>
           threshold settings < Max (set (similarities emb (known_faces self)))"
proof -
  from assms have b: "identify_user_body self settings fr loc = Inr (Some u)"
    by (simp add: identify_user_def split: sum.splits)
  then have ne: "known_faces self \<noteq> []"
    by (auto simp: identify_user_body_def)
  from b ne obtain emb where q: "query_embedding self fr loc = Inr (Some (Vec emb))"
    by (cases "query_embedding self fr loc")
       (auto simp: identify_user_body_def split: option.splits face_vec.splits)
  from b ne q obtain bm bs where
    l: "match_loop emb (known_faces self) (None, - 1) = Inr (bm, bs)"
    by (cases "match_loop emb (known_faces self) (None, - 1)")
       (auto simp: identify_user_body_def)
  from b ne q l have t: "threshold settings < bs" and bm: "bm = Some u"
    by (auto simp: identify_user_body_def split: if_splits)
  from match_loop_found [of emb "known_faces self" "- 1" u bs] l bm t q ne
  show ?thesis by auto
qed

lemma verify_true:
  assumes "verify_user_face self settings uid fr loc"
  shows "\<exists>emb data. query_embedding self fr loc = Inr (Some (Vec emb)) \<and>
           map_of (known_faces self) uid = Some data \<and>
           threshold settings < dot emb (encoding data)"
proof -
  from assms have b: "verify_user_face_body self settings uid fr loc = Inr True"
    by (simp add: verify_user_face_def split: sum.splits)
  then obtain data where d: "map_of (known_faces self) uid = Some data"
    by (cases "map_of (known_faces self) uid") (auto simp: verify_user_face_body_def)
  from b d obtain emb where q: "query_embedding self fr loc = Inr (Some (Vec emb))"
    by (cases "query_embedding self fr loc")
       (auto simp: verify_user_face_body_def split: option.splits face_vec.splits)
  from b d q have "threshold settings < dot emb (encoding data)"
    by (auto simp: verify_user_face_body_def np_dot_def split: if_splits)
  with d q show ?thesis by blast
qed

subsection \<open>Strict threshold\<close>

text \<open>
  Claim C1. Whatever the frame, the index and the configured threshold (0.8 when the
  setting is absent): \<^verbatim>\<open>identify_user\<close> returns an identity only if a query embedding
  was computed and the greatest similarity over the index is strictly above the
  threshold, and it returns \<^verbatim>\<open>None\<close> when that greatest similarity equals the
  threshold; \<^verbatim>\<open>verify_user_face\<close> returns \<^verbatim>\<open>True\<close> only if the similarity to the
  stored embedding of the claimed identity is strictly above the threshold, and
  \<^verbatim>\<open>False\<close> when it equals the threshold.
\<close>

theorem strict_threshold:
  "(identify_user self settings fr loc = Some u \<longrightarrow>
      (\<exists>emb. query_embedding self fr loc = Inr (Some (Vec emb)) \<and> known_faces self \<noteq> [] \<and>
             threshold settings < Max (set (similarities emb (known_faces self)))))
   \<and> (query_embedding self fr loc = Inr (Some (Vec emb)) \<and> known_faces self \<noteq> [] \<and>
        Max (set (similarities emb (known_faces self))) = threshold settings \<longrightarrow>
        identify_user self settings fr loc = None)
   \<and> (verify_user_face self settings uid fr loc \<longrightarrow>
        (\<exists>emb data. query_embedding self fr loc = Inr (Some (Vec emb)) \<and>
           map_of (known_faces self) uid = Some data \<and>
           threshold settings < dot emb (encoding data)))
   \<and> (query_embedding self fr loc = Inr (Some (Vec emb)) \<and>
        map_of (known_faces self) uid = Some data \<and>
        dot emb (encoding data) = threshold settings \<longrightarrow>
        \<not> verify_user_face self settings uid fr loc)
   \<and> threshold None = 8 / 10"
proof (intro conjI impI)
  show "\<exists>emb. query_embedding self fr loc = Inr (Some (Vec emb)) \<and> known_faces self \<noteq> [] \<and>
             threshold settings < Max (set (similarities emb (known_faces self)))"
    if "identify_user self settings fr loc = Some u"
    using that by (rule identify_some)
  show "identify_user self settings fr loc = None"
    if h: "query_embedding self fr loc = Inr (Some (Vec emb)) \<and> known_faces self \<noteq> [] \<and>
        Max (set (similarities emb (known_faces self))) = threshold settings"
  proof (cases "identify_user self settings fr loc")
    case None
    then show ?thesis .
  next
    case (Some v)
    from identify_some [OF this] h show ?thesis by auto
  qed
  show "\<exists>emb data. query_embedding self fr loc = Inr (Some (Vec emb)) \<and>
           map_of (known_faces self) uid = Some data \<and>
           threshold settings < dot emb (encoding data)"
    if "verify_user_face self settings uid fr loc"
    using that by (rule verify_true)
  show "\<not> verify_user_face self settings uid fr loc"
    if h: "query_embedding self fr loc = Inr (Some (Vec emb)) \<and>
        map_of (known_faces self) uid = Some data \<and>
        dot emb (encoding data) = threshold settings"
  proof
    assume "verify_user_face self settings uid fr loc"
    from verify_true [OF this] h show False by auto
  qed
  show "threshold None = 8 / 10" by (simp add: threshold_def)
qed

theorem strict_threshold_witness:
  "identify_user (ex_recognizer [] []) None (Some ex_frame) (Some (ex_box 0 0 10 10)) = Some 1
   \<and> (\<exists>emb. query_embedding (ex_recognizer [] []) (Some ex_frame) (Some (ex_box 0 0 10 10))
               = Inr (Some (Vec emb))
             \<and> threshold None < Max (set (similarities emb (known_faces (ex_recognizer [] [])))))
   \<and> Max (set (similarities [1, 0] (known_faces (ex_recognizer [] [])))) = threshold (Some 1)
   \<and> identify_user (ex_recognizer [] []) (Some 1) (Some ex_frame) (Some (ex_box 0 0 10 10)) = None
   \<and> verify_user_face (ex_recognizer [] []) None 1 (Some ex_frame) (Some (ex_box 0 0 10 10))
   \<and> (\<exists>emb data. map_of (known_faces (ex_recognizer [] [])) 1 = Some data
             \<and> threshold None < dot emb (encoding data))
   \<and> dot [1, 0] (encoding \<lparr>encoding = [1, 0], entry_user_id = 1\<rparr>) = threshold (Some 1)
   \<and> \<not> verify_user_face (ex_recognizer [] []) (Some 1) 1 (Some ex_frame) (Some (ex_box 0 0 10 10))"
proof -
  let ?W = "ex_recognizer [] []" and ?F = "Some ex_frame" and ?L = "Some (ex_box 0 0 10 10)"
  let ?d = "\<lparr>encoding = [1, 0], entry_user_id = 1\<rparr>"
  have i: "identify_user ?W None ?F ?L = Some 1" by (rule ex_identify)
  have v: "verify_user_face ?W None 1 ?F ?L" by (rule ex_verify)
  have q: "query_embedding ?W ?F ?L = Inr (Some (Vec [1, 0]))" by (rule ex_query)
  have ne: "known_faces ?W \<noteq> []" by (simp add: ex_known ex_index_def)
  have l: "map_of (known_faces ?W) 1 = Some ?d" using ex_lookup by (simp add: ex_known)
  have m: "Max (set (similarities [1, 0] (known_faces ?W))) = threshold (Some 1)"
    by (simp add: ex_known ex_similarities threshold_def)
  have e: "dot [1, 0] (encoding ?d) = threshold (Some 1)"
    by (simp add: dot_def threshold_def)
  note a = strict_threshold [where self = ?W and settings = None and fr = ?F and loc = ?L
      and u = 1 and uid = 1]
  note b = strict_threshold [where self = ?W and settings = "Some 1" and fr = ?F and loc = ?L
      and emb = "[1, 0]" and uid = 1 and data = ?d]
  from a i have c1: "\<exists>emb. query_embedding ?W ?F ?L = Inr (Some (Vec emb))
             \<and> threshold None < Max (set (similarities emb (known_faces ?W)))" by blast
  from a v have c2: "\<exists>emb data. map_of (known_faces ?W) 1 = Some data
             \<and> threshold None < dot emb (encoding data)" by blast
  from b q ne m have c3: "identify_user ?W (Some 1) ?F ?L = None" by blast
  from b q l e have c4: "\<not> verify_user_face ?W (Some 1) 1 ?F ?L" by blast
  from i c1 m c3 v c2 e c4 show ?thesis by blast
qed

subsection \<open>Empty index, absent identity\<close>

text \<open>
  Claim C8. With an empty index \<^verbatim>\<open>identify_user\<close> returns \<^verbatim>\<open>None\<close> for every frame
  (\<^verbatim>\<open>None\<close> and empty frames included), every face location and every threshold, and
  its body raises nothing.
\<close>

theorem identify_empty_index:
  "identify_user (self\<lparr>known_faces := []\<rparr>) settings fr loc = None
   \<and> identify_user_body (self\<lparr>known_faces := []\<rparr>) settings fr loc = Inr None"
  by (simp add: identify_user_def identify_user_body_def)

theorem identify_empty_index_witness:
  "identify_user ((ex_recognizer [] [])\<lparr>known_faces := []\<rparr>) None None None = None
   \<and> identify_user ((ex_recognizer [] [])\<lparr>known_faces := []\<rparr>) None (Some ex_frame)
        (Some (ex_box 0 0 10 10)) = None"
  using identify_empty_index [of "ex_recognizer [] []" None None None]
    identify_empty_index [of "ex_recognizer [] []" None "Some ex_frame" "Some (ex_box 0 0 10 10)"]
  by blast

text \<open>
  Claim C9. For a claimed identity with no entry in the index, \<^verbatim>\<open>verify_user_face\<close>
  returns \<^verbatim>\<open>False\<close>, and it does so by the first \<^verbatim>\<open>return\<close> of its body: no
  exception is raised, not even one its handler would catch.
\<close>

theorem verify_absent_identity:
  "map_of (known_faces self) uid = None \<Longrightarrow>
     verify_user_face_body self settings uid fr loc = Inr False
     \<and> \<not> verify_user_face self settings uid fr loc"
  by (simp add: verify_user_face_def verify_user_face_body_def)

theorem verify_absent_identity_witness:
  "map_of (known_faces (ex_recognizer [] [])) 3 = None
   \<and> verify_user_face_body (ex_recognizer [] []) None 3 (Some ex_frame) (Some (ex_box 0 0 10 10))
       = Inr False
   \<and> \<not> verify_user_face (ex_recognizer [] []) None 3 (Some ex_frame) (Some (ex_box 0 0 10 10))"
proof -
  have h: "map_of (known_faces (ex_recognizer [] [])) 3 = None"
    by (simp add: ex_known ex_index_def)
  from h verify_absent_identity [OF h] show ?thesis by blast
qed

subsection \<open>Similarity in exact arithmetic\<close>

text \<open>
  Read over the real numbers, the dot product is symmetric, and the dot product of a
  vector of L2 norm 1 with itself is 1. NumPy computes both the normalisation and
  \<^verbatim>\<open>np.dot\<close> in \<^verbatim>\<open>float32\<close>, where each operation rounds: the two lemmas below
  say nothing about the exact value that \<^verbatim>\<open>np.dot(e, e)\<close> takes there.
\<close>

lemma dot_commute: "dot a b = dot b a"
  unfolding dot_def
proof (induction a arbitrary: b)
  case Nil
  then show ?case by simp
next
  case (Cons x xs)
  then show ?case by (cases b) (simp_all add: mult.commute)
qed

lemma dot_self: "dot a a = sum_list (map (\<lambda>x. x * x) a)"
  unfolding dot_def by (induction a) simp_all

lemma sum_squares_nonneg: "0 \<le> sum_list (map (\<lambda>x. x * x) (a :: real list))"
  by (induction a) simp_all

lemma dot_self_unit: "l2_norm a = 1 \<Longrightarrow> dot a a = 1"
  using sum_squares_nonneg [of a] by (simp add: dot_self l2_norm_def)

subsection \<open>Verification reads one entry\<close>

text \<open>Nothing before the comparison reads \<^verbatim>\<open>known_faces\<close>.\<close>

lemma detect_faces_known: "detect_faces (self\<lparr>known_faces := kf\<rparr>) fr = detect_faces self fr"
  by (cases fr) (simp_all add: detect_faces_def)

lemma process_frame_known: "process_frame (self\<lparr>known_faces := kf\<rparr>) fr = process_frame self fr"
  by (cases fr) (simp_all add: process_frame_def process_frame_body_def detect_faces_known)

lemma get_face_embedding_known:
  "get_face_embedding (self\<lparr>known_faces := kf\<rparr>) fr bx = get_face_embedding self fr bx"
  by (cases fr) (simp_all add: get_face_embedding_def Let_def)

lemma query_embedding_known:
  "query_embedding (self\<lparr>known_faces := kf\<rparr>) fr loc = query_embedding self fr loc"
  by (cases loc)
     (simp_all add: query_embedding_def process_frame_known get_face_embedding_known Let_def
        cong: option.case_cong)

text \<open>
  Claim C2. For two indexes that agree on the entry of the claimed identity (absent in
  both, or present in both with the same embedding), \<^verbatim>\<open>verify_user_face\<close> returns the
  same boolean, whatever the frame, the face location and the other entries.
\<close>

theorem verify_reads_claimed_entry_only:
  "map_option encoding (map_of kf1 uid) = map_option encoding (map_of kf2 uid) \<Longrightarrow>
     verify_user_face (self\<lparr>known_faces := kf1\<rparr>) settings uid fr loc
       = verify_user_face (self\<lparr>known_faces := kf2\<rparr>) settings uid fr loc"
  by (cases "map_of kf1 uid"; cases "map_of kf2 uid")
     (simp_all add: verify_user_face_def verify_user_face_body_def query_embedding_known
        cong: option.case_cong sum.case_cong face_vec.case_cong)

theorem verify_reads_claimed_entry_only_witness:
  "map_option encoding (map_of ex_index 1)
     = map_option encoding (map_of [(5, \<lparr>encoding = [1, 0], entry_user_id = 5\<rparr>),
                                    (1, \<lparr>encoding = [1, 0], entry_user_id = 1\<rparr>)] 1)
   \<and> verify_user_face ((ex_recognizer [] [])\<lparr>known_faces := ex_index\<rparr>) None 1
        (Some ex_frame) (Some (ex_box 0 0 10 10))
     = verify_user_face
         ((ex_recognizer [] [])\<lparr>known_faces := [(5, \<lparr>encoding = [1, 0], entry_user_id = 5\<rparr>),
                                                (1, \<lparr>encoding = [1, 0], entry_user_id = 1\<rparr>)]\<rparr>)
         None 1 (Some ex_frame) (Some (ex_box 0 0 10 10))"
proof -
  have h: "map_option encoding (map_of ex_index 1)
     = map_option encoding (map_of [(5, \<lparr>encoding = [1, 0], entry_user_id = 5\<rparr>),
                                    (1, \<lparr>encoding = [1, 0], entry_user_id = 1\<rparr>)] 1)"
    by (simp add: ex_index_def)
  from h verify_reads_claimed_entry_only [OF h] show ?thesis by blast
qed

subsection \<open>The frame validator\<close>

lemma detect_faces_empty_frame:
  "fr = None \<or> (\<exists>f. fr = Some f \<and> frame_size f = 0) \<Longrightarrow> detect_faces self fr = []"
  by (auto simp: detect_faces_def)

lemma process_frame_empty:
  "fr = None \<or> (\<exists>f. fr = Some f \<and> frame_size f = 0) \<Longrightarrow>
     process_frame self fr = reject ''Empty image received''"
  by (auto simp: process_frame_def process_frame_body_def)

lemma process_frame_none:
  "fr = Some f \<Longrightarrow> frame_size f \<noteq> 0 \<Longrightarrow> detect_faces self fr = [] \<Longrightarrow>
     process_frame self fr
       = reject ''No faces detected. Please ensure your face is visible and well-lit''"
  by (simp add: process_frame_def process_frame_body_def)

lemma process_frame_many:
  "fr = Some f \<Longrightarrow> frame_size f \<noteq> 0 \<Longrightarrow> 1 < length (detect_faces self fr) \<Longrightarrow>
     process_frame self fr
       = reject ''Multiple faces detected. Please ensure only your face is in the frame''"
  by (auto simp: process_frame_def process_frame_body_def Let_def)

lemma process_frame_single:
  "fr = Some f \<Longrightarrow> frame_size f \<noteq> 0 \<Longrightarrow> detect_faces self fr = [bx] \<Longrightarrow>
     process_frame self fr =
       (if b3 bx - b1 bx < real (shape0 f) / 5 then reject ''Please move closer to the camera''
        else if b2 bx - b0 bx < real (shape1 f) / 5 then
          reject ''Please center your face in the frame''
        else \<lparr>is_valid = True, error = None, face_location = Some bx, face_count = Some 1\<rparr>)"
  by (simp add: process_frame_def process_frame_body_def py_max_def Let_def)
lemma ex_frame_size: "frame_size ex_frame \<noteq> 0"
  by (simp add: frame_size_def ex_frame_def)
lemma ex_detect_none: "detect_faces (ex_recognizer [] []) (Some ex_frame) = []"
  by (simp add: detect_faces_def ex_recognizer_def ex_frame_size)

lemma ex_detect_low:
  "detect_faces (ex_recognizer [ex_box 1 1 8 9] [0.9]) (Some ex_frame) = []"
  by (simp add: detect_faces_def ex_recognizer_def ex_frame_size)

lemma ex_detect_one:
  "detect_faces (ex_recognizer [bx] [0.99]) (Some ex_frame) = [bx]"
  by (simp add: detect_faces_def ex_recognizer_def ex_frame_size)

lemma ex_detect_two:
  "detect_faces (ex_recognizer [bx, bx'] [0.97, 0.96]) (Some ex_frame) = [bx, bx']"
  by (simp add: detect_faces_def ex_recognizer_def ex_frame_size)

text \<open>
  Claim C3. \<^verbatim>\<open>process_frame\<close> applies its checks in a fixed order, and the first one
  that fails gives the reason: a \<^verbatim>\<open>None\<close> or empty image; no detected box; more than
  one detected box, whatever their sizes; a single box lower than 20% of the frame
  height; a single box narrower than 20% of the frame width (reached only when the
  height check passed). Otherwise the verdict is valid and carries the box.
\<close>

theorem process_frame_check_order:
  "(fr = None \<or> (\<exists>g. fr = Some g \<and> frame_size g = 0) \<longrightarrow>
      process_frame self fr = reject ''Empty image received'')
   \<and> (fr = Some f \<and> frame_size f \<noteq> 0 \<longrightarrow>
        (detect_faces self fr = [] \<longrightarrow>
           process_frame self fr
             = reject ''No faces detected. Please ensure your face is visible and well-lit'')
      \<and> (1 < length (detect_faces self fr) \<longrightarrow>
           process_frame self fr
             = reject ''Multiple faces detected. Please ensure only your face is in the frame'')
      \<and> (detect_faces self fr = [bx] \<longrightarrow>
           (b3 bx - b1 bx < real (shape0 f) / 5 \<longrightarrow>
              process_frame self fr = reject ''Please move closer to the camera'')
         \<and> (\<not> b3 bx - b1 bx < real (shape0 f) / 5 \<and> b2 bx - b0 bx < real (shape1 f) / 5 \<longrightarrow>
              process_frame self fr = reject ''Please center your face in the frame'')
         \<and> (\<not> b3 bx - b1 bx < real (shape0 f) / 5 \<and> \<not> b2 bx - b0 bx < real (shape1 f) / 5 \<longrightarrow>
              process_frame self fr
                = \<lparr>is_valid = True, error = None, face_location = Some bx,
                   face_count = Some 1\<rparr>)))"
proof (intro conjI impI)
  show "process_frame self fr = reject ''Empty image received''"
    if "fr = None \<or> (\<exists>g. fr = Some g \<and> frame_size g = 0)"
    using that by (rule process_frame_empty)
next
  assume h: "fr = Some f \<and> frame_size f \<noteq> 0"
  then have a: "fr = Some f" and b: "frame_size f \<noteq> 0" by simp_all
  show "process_frame self fr
          = reject ''No faces detected. Please ensure your face is visible and well-lit''"
    if "detect_faces self fr = []"
    using a b that by (rule process_frame_none)
  show "process_frame self fr
          = reject ''Multiple faces detected. Please ensure only your face is in the frame''"
    if "1 < length (detect_faces self fr)"
    using a b that by (rule process_frame_many)
  assume d: "detect_faces self fr = [bx]"
  note s = process_frame_single [OF a b d]
  show "process_frame self fr = reject ''Please move closer to the camera''"
    if "b3 bx - b1 bx < real (shape0 f) / 5"
    using s that by simp
  show "process_frame self fr = reject ''Please center your face in the frame''"
    if "\<not> b3 bx - b1 bx < real (shape0 f) / 5 \<and> b2 bx - b0 bx < real (shape1 f) / 5"
    using s that by simp
  show "process_frame self fr
          = \<lparr>is_valid = True, error = None, face_location = Some bx, face_count = Some 1\<rparr>"
    if "\<not> b3 bx - b1 bx < real (shape0 f) / 5 \<and> \<not> b2 bx - b0 bx < real (shape1 f) / 5"
    using s that by simp
qed

theorem process_frame_check_order_witness:
  "process_frame (ex_recognizer [] []) None = reject ''Empty image received''
   \<and> process_frame (ex_recognizer [] []) (Some (ex_frame\<lparr>shape0 := 0\<rparr>))
       = reject ''Empty image received''
   \<and> process_frame (ex_recognizer [ex_box 1 1 8 9] [0.9]) (Some ex_frame)
       = reject ''No faces detected. Please ensure your face is visible and well-lit''
   \<and> process_frame (ex_recognizer [ex_box 0 0 9 9, ex_box 7 7 8 8] [0.97, 0.96]) (Some ex_frame)
       = reject ''Multiple faces detected. Please ensure only your face is in the frame''
   \<and> process_frame (ex_recognizer [ex_box 4 4 5 5] [0.99]) (Some ex_frame)
       = reject ''Please move closer to the camera''
   \<and> process_frame (ex_recognizer [ex_box 4 1 5 9] [0.99]) (Some ex_frame)
       = reject ''Please center your face in the frame''
   \<and> process_frame (ex_recognizer [ex_box 1 1 8 9] [0.99]) (Some ex_frame)
       = \<lparr>is_valid = True, error = None, face_location = Some (ex_box 1 1 8 9),
          face_count = Some 1\<rparr>"
proof -
  have z: "frame_size (ex_frame\<lparr>shape0 := 0\<rparr>) = 0" by (simp add: frame_size_def)
  have sh: "shape0 ex_frame = 10" "shape1 ex_frame = 10" by (simp_all add: ex_frame_def)
  have c1: "process_frame (ex_recognizer [] []) None = reject ''Empty image received''"
    using process_frame_check_order [where fr = None and self = "ex_recognizer [] []"] by blast
  have c2: "process_frame (ex_recognizer [] []) (Some (ex_frame\<lparr>shape0 := 0\<rparr>))
       = reject ''Empty image received''"
    using process_frame_check_order [where fr = "Some (ex_frame\<lparr>shape0 := 0\<rparr>)"
        and self = "ex_recognizer [] []"] z by blast
  have c3: "process_frame (ex_recognizer [ex_box 1 1 8 9] [0.9]) (Some ex_frame)
       = reject ''No faces detected. Please ensure your face is visible and well-lit''"
    using process_frame_check_order [where fr = "Some ex_frame" and f = ex_frame
        and self = "ex_recognizer [ex_box 1 1 8 9] [0.9]"] ex_frame_size ex_detect_low
    by blast
  have c4: "process_frame (ex_recognizer [ex_box 0 0 9 9, ex_box 7 7 8 8] [0.97, 0.96]) (Some ex_frame)
       = reject ''Multiple faces detected. Please ensure only your face is in the frame''"
    using process_frame_check_order [where fr = "Some ex_frame" and f = ex_frame
        and self = "ex_recognizer [ex_box 0 0 9 9, ex_box 7 7 8 8] [0.97, 0.96]"]
      ex_frame_size ex_detect_two [of "ex_box 0 0 9 9" "ex_box 7 7 8 8"]
    by simp
  have c5: "process_frame (ex_recognizer [ex_box 4 4 5 5] [0.99]) (Some ex_frame)
       = reject ''Please move closer to the camera''"
    using process_frame_check_order [where fr = "Some ex_frame" and f = ex_frame
        and self = "ex_recognizer [ex_box 4 4 5 5] [0.99]" and bx = "ex_box 4 4 5 5"]
      ex_frame_size ex_detect_one [of "ex_box 4 4 5 5"]
    by (simp add: sh ex_box_def)
  have c6: "process_frame (ex_recognizer [ex_box 4 1 5 9] [0.99]) (Some ex_frame)
       = reject ''Please center your face in the frame''"
    using process_frame_check_order [where fr = "Some ex_frame" and f = ex_frame
        and self = "ex_recognizer [ex_box 4 1 5 9] [0.99]" and bx = "ex_box 4 1 5 9"]
      ex_frame_size ex_detect_one [of "ex_box 4 1 5 9"]
    by (simp add: sh ex_box_def)
  have c7: "process_frame (ex_recognizer [ex_box 1 1 8 9] [0.99]) (Some ex_frame)
       = \<lparr>is_valid = True, error = None, face_location = Some (ex_box 1 1 8 9),
          face_count = Some 1\<rparr>"
    using process_frame_check_order [where fr = "Some ex_frame" and f = ex_frame
        and self = "ex_recognizer [ex_box 1 1 8 9] [0.99]" and bx = "ex_box 1 1 8 9"]
      ex_frame_size ex_detect_one [of "ex_box 1 1 8 9"]
    by (simp add: sh ex_box_def)
  from c1 c2 c3 c4 c5 c6 c7 show ?thesis by blast
qed

lemma process_frame_cases:
  "(\<exists>msg. process_frame self fr = reject msg)
   \<or> (\<exists>bx. process_frame self fr
          = \<lparr>is_valid = True, error = None, face_location = Some bx, face_count = Some 1\<rparr>)"
proof (cases "fr = None \<or> (\<exists>g. fr = Some g \<and> frame_size g = 0)")
  case True
  from process_frame_empty [OF this] show ?thesis by blast
next
  case False
  then obtain f where a: "fr = Some f" and b: "frame_size f \<noteq> 0" by (cases fr) auto
  consider "detect_faces self fr = []" | "1 < length (detect_faces self fr)"
    | bx where "detect_faces self fr = [bx]"
    by (cases "detect_faces self fr" rule: list.exhaust; cases "tl (detect_faces self fr)") auto
  then show ?thesis
  proof cases
    case 1
    from process_frame_none [OF a b this] show ?thesis by blast
  next
    case 2
    from process_frame_many [OF a b this] show ?thesis by blast
  next
    case 3
    from process_frame_single [OF a b this] show ?thesis by (auto split: if_splits)
  qed
qed

text \<open>
  Claim C7, as it is stated, fails: a rejection carries no \<^verbatim>\<open>face_count\<close>. With two
  faces detected above the confidence floor the verdict is invalid and has no such key.
\<close>

theorem face_count_absent_on_rejection:
  "length (detect_faces (ex_recognizer [ex_box 0 0 6 6, ex_box 7 7 9 9] [0.97, 0.96])
             (Some ex_frame)) = 2
   \<and> \<not> is_valid (process_frame (ex_recognizer [ex_box 0 0 6 6, ex_box 7 7 9 9] [0.97, 0.96])
                    (Some ex_frame))
   \<and> face_count (process_frame (ex_recognizer [ex_box 0 0 6 6, ex_box 7 7 9 9] [0.97, 0.96])
                    (Some ex_frame)) \<noteq> Some 2
   \<and> face_count (process_frame (ex_recognizer [ex_box 0 0 6 6, ex_box 7 7 9 9] [0.97, 0.96])
                    (Some ex_frame)) = None"
proof -
  let ?W = "ex_recognizer [ex_box 0 0 6 6, ex_box 7 7 9 9] [0.97, 0.96]"
  have d: "detect_faces ?W (Some ex_frame) = [ex_box 0 0 6 6, ex_box 7 7 9 9]"
    by (rule ex_detect_two)
  then have "1 < length (detect_faces ?W (Some ex_frame))" by simp
  from process_frame_many [OF refl ex_frame_size this] d
  show ?thesis by (simp add: reject_def)
qed

text \<open>
  Claim C7, amended. A verdict carries \<^verbatim>\<open>face_count\<close> exactly when it is valid, and
  then the count is 1; an invalid verdict carries an error message instead. With two
  detected faces the verdict is the multiple-faces rejection.
\<close>

theorem face_count_on_acceptance_only:
  "face_count (process_frame self fr) = (if is_valid (process_frame self fr) then Some 1 else None)
   \<and> (\<not> is_valid (process_frame self fr) \<longrightarrow> error (process_frame self fr) \<noteq> None)
   \<and> (length (detect_faces self fr) = 2 \<longrightarrow>
        process_frame self fr
          = reject ''Multiple faces detected. Please ensure only your face is in the frame'')"
proof (intro conjI impI)
  show "face_count (process_frame self fr)
          = (if is_valid (process_frame self fr) then Some 1 else None)"
    using process_frame_cases [of self fr] by (auto simp: reject_def)
  show "error (process_frame self fr) \<noteq> None" if "\<not> is_valid (process_frame self fr)"
    using process_frame_cases [of self fr] that by (auto simp: reject_def)
  show "process_frame self fr
          = reject ''Multiple faces detected. Please ensure only your face is in the frame''"
    if h: "length (detect_faces self fr) = 2"
  proof -
    from h have ne: "detect_faces self fr \<noteq> []" by auto
    with detect_faces_empty_frame [of fr self]
    obtain f where a: "fr = Some f" and b: "frame_size f \<noteq> 0" by (cases fr) auto
    from h have "1 < length (detect_faces self fr)" by simp
    from process_frame_many [OF a b this] show ?thesis .
  qed
qed

theorem face_count_on_acceptance_only_witness:
  "face_count (process_frame (ex_recognizer [ex_box 1 1 8 9] [0.99]) (Some ex_frame)) = Some 1
   \<and> is_valid (process_frame (ex_recognizer [ex_box 1 1 8 9] [0.99]) (Some ex_frame))
   \<and> \<not> is_valid (process_frame (ex_recognizer [ex_box 0 0 6 6, ex_box 7 7 9 9] [0.97, 0.96])
                    (Some ex_frame))
   \<and> error (process_frame (ex_recognizer [ex_box 0 0 6 6, ex_box 7 7 9 9] [0.97, 0.96])
                    (Some ex_frame)) \<noteq> None
   \<and> length (detect_faces (ex_recognizer [ex_box 0 0 6 6, ex_box 7 7 9 9] [0.97, 0.96])
             (Some ex_frame)) = 2
   \<and> process_frame (ex_recognizer [ex_box 0 0 6 6, ex_box 7 7 9 9] [0.97, 0.96]) (Some ex_frame)
       = reject ''Multiple faces detected. Please ensure only your face is in the frame''"
proof -
  let ?W = "ex_recognizer [ex_box 0 0 6 6, ex_box 7 7 9 9] [0.97, 0.96]"
  let ?V = "ex_recognizer [ex_box 1 1 8 9] [0.99]"
  have sh: "shape0 ex_frame = 10" "shape1 ex_frame = 10" by (simp_all add: ex_frame_def)
  have d: "length (detect_faces ?W (Some ex_frame)) = 2"
    by (subst ex_detect_two) simp
  have v: "is_valid (process_frame ?V (Some ex_frame))"
    using process_frame_single [OF refl ex_frame_size ex_detect_one, of "ex_box 1 1 8 9"]
    by (simp add: sh ex_box_def)
  note a = face_count_on_acceptance_only [of ?V "Some ex_frame"]
  note b = face_count_on_acceptance_only [of ?W "Some ex_frame"]
  from b d have m: "process_frame ?W (Some ex_frame)
       = reject ''Multiple faces detected. Please ensure only your face is in the frame''"
    by blast
  then have n: "\<not> is_valid (process_frame ?W (Some ex_frame))" by (simp add: reject_def)
  with b have e: "error (process_frame ?W (Some ex_frame)) \<noteq> None" by blast
  from a v have c: "face_count (process_frame ?V (Some ex_frame)) = Some 1" by simp
  from c v n e d m show ?thesis by blast
qed

subsection \<open>A supplied face location\<close>











subsection \<open>The rebuilt index\<close>

lemma load_loop_fail:
  "p \<in> set ps \<Longrightarrow> truthy (face_encoding p) \<Longrightarrow> loads (the (face_encoding p)) = Inl e \<Longrightarrow>
     \<exists>e'. load_loop loads ps kf = Inl e'"
proof (induction ps arbitrary: kf)
  case Nil
  then show ?case by simp
next
  case (Cons q ps)
  show ?case
  proof (cases "truthy (face_encoding q)")
    case False
    with Cons.prems have "p \<in> set ps" by auto
    from Cons.IH [OF this Cons.prems(2,3)] False show ?thesis by simp
  next
    case True
    show ?thesis
    proof (cases "loads (the (face_encoding q))")
      case (Inl a)
      with True show ?thesis by simp
    next
      case (Inr enc)
      with Cons.prems True have "p \<in> set ps" by auto
      from Cons.IH [OF this Cons.prems(2,3)] True Inr show ?thesis by simp
    qed
  qed
qed

lemma load_loop_ok:
  "\<forall>p \<in> set ps. truthy (face_encoding p) \<longrightarrow> (\<exists>enc. loads (the (face_encoding p)) = Inr enc) \<Longrightarrow>
     \<exists>kf'. load_loop loads ps kf = Inr kf' \<and>
       fst ` set kf' = fst ` set kf \<union> user_id ` {p \<in> set ps. truthy (face_encoding p)}"
proof (induction ps arbitrary: kf)
  case Nil
  then show ?case by simp
next
  case (Cons q ps)
  then have rest: "\<forall>p \<in> set ps. truthy (face_encoding p) \<longrightarrow>
      (\<exists>enc. loads (the (face_encoding p)) = Inr enc)" by simp
  show ?case
  proof (cases "truthy (face_encoding q)")
    case False
    from Cons.IH [OF rest, of kf] False show ?thesis by auto
  next
    case True
    with Cons.prems obtain enc where enc: "loads (the (face_encoding q)) = Inr enc" by auto
    let ?kf = "AList.update (user_id q) \<lparr>encoding = enc, entry_user_id = user_id q\<rparr> kf"
    from Cons.IH [OF rest, of ?kf] obtain kf' where
      l: "load_loop loads ps ?kf = Inr kf'" and
      k: "fst ` set kf' = fst ` set ?kf \<union> user_id ` {p \<in> set ps. truthy (face_encoding p)}"
      by blast
    have "fst ` set ?kf = {user_id q} \<union> fst ` set kf" by (rule dom_update)
    with k True have "fst ` set kf' =
        fst ` set kf \<union> user_id ` {p \<in> set (q # ps). truthy (face_encoding p)}" by auto
    with l True enc show ?thesis by simp
  qed
qed

lemma load_loop_untouched:
  "load_loop loads ps kf = Inr kf' \<Longrightarrow>
     u \<notin> user_id ` {p \<in> set ps. truthy (face_encoding p)} \<Longrightarrow> map_of kf' u = map_of kf u"
proof (induction ps arbitrary: kf)
  case Nil
  then show ?case by simp
next
  case (Cons q ps)
  from Cons.prems(2) have u: "u \<notin> user_id ` {p \<in> set ps. truthy (face_encoding p)}" by auto
  show ?case
  proof (cases "truthy (face_encoding q)")
    case False
    with Cons.prems(1) have "load_loop loads ps kf = Inr kf'" by simp
    from Cons.IH [OF this u] show ?thesis .
  next
    case True
    with Cons.prems(2) have ne: "u \<noteq> user_id q" by auto
    from True Cons.prems(1) obtain enc where
      l: "load_loop loads ps
            (AList.update (user_id q) \<lparr>encoding = enc, entry_user_id = user_id q\<rparr> kf) = Inr kf'"
      by (cases "loads (the (face_encoding q))") simp_all
    from Cons.IH [OF l u] ne show ?thesis by (simp add: update_conv')
  qed
qed

lemma load_loop_entry:
  "load_loop loads ps kf = Inr kf' \<Longrightarrow> p \<in> set ps \<Longrightarrow> truthy (face_encoding p) \<Longrightarrow>
   distinct (map user_id ps) \<Longrightarrow>
     \<exists>enc. loads (the (face_encoding p)) = Inr enc \<and>
       map_of kf' (user_id p) = Some \<lparr>encoding = enc, entry_user_id = user_id p\<rparr>"
proof (induction ps arbitrary: kf)
  case Nil
  then show ?case by simp
next
  case (Cons q ps)
  from Cons.prems(4) have dis: "distinct (map user_id ps)" and
    fresh: "user_id q \<notin> user_id ` set ps" by simp_all
  show ?case
  proof (cases "p = q")
    case True
    with Cons.prems(1,3) obtain enc where enc: "loads (the (face_encoding p)) = Inr enc" and
      l: "load_loop loads ps
            (AList.update (user_id p) \<lparr>encoding = enc, entry_user_id = user_id p\<rparr> kf) = Inr kf'"
      by (cases "loads (the (face_encoding q))") simp_all
    from fresh True have "user_id p \<notin> user_id ` {r \<in> set ps. truthy (face_encoding r)}" by auto
    from load_loop_untouched [OF l this] enc show ?thesis by (simp add: update_conv')
  next
    case False
    with Cons.prems(2) have mem: "p \<in> set ps" by simp
    show ?thesis
    proof (cases "truthy (face_encoding q)")
      case False
      with Cons.prems(1) have "load_loop loads ps kf = Inr kf'" by simp
      from Cons.IH [OF this mem Cons.prems(3) dis] show ?thesis .
    next
      case True
      with Cons.prems(1) obtain enc where
        l: "load_loop loads ps
              (AList.update (user_id q) \<lparr>encoding = enc, entry_user_id = user_id q\<rparr> kf) = Inr kf'"
        by (cases "loads (the (face_encoding q))") simp_all
      from Cons.IH [OF l mem Cons.prems(3) dis] show ?thesis .
    qed
  qed
qed
lemma ex_profiles_corrupt:
  "load_known_faces ex_loads
     (Inr [ex_profile 1 (Some [7]) True, ex_profile 2 (Some [0]) True, ex_profile 3 (Some [7]) True])
     (ex_recognizer [] [])
   = (ex_recognizer [] [])\<lparr>known_faces := []\<rparr>"
  by (simp add: load_known_faces_def ex_loads_def ex_profile_def truthy_def)

text \<open>
  Claim C4, as it is stated, fails: with a valid record, a corrupt one and another valid
  one, the rebuilt index is empty, so the valid records are not in it.
\<close>

theorem corrupt_record_aborts_rebuild:
  "ex_loads [7] = Inr [1, 0] \<and> ex_loads [0] = Inl UnpicklingError
   \<and> known_faces (load_known_faces ex_loads
        (Inr [ex_profile 1 (Some [7]) True, ex_profile 2 (Some [0]) True,
              ex_profile 3 (Some [7]) True])
        (ex_recognizer [] [])) = []
   \<and> map_of (known_faces (load_known_faces ex_loads
        (Inr [ex_profile 1 (Some [7]) True, ex_profile 2 (Some [0]) True,
              ex_profile 3 (Some [7]) True])
        (ex_recognizer [] []))) 1 = None"
  using ex_profiles_corrupt by (simp add: ex_loads_def)

text \<open>
  Claim C4, amended. A deserialisation failure on any record with a stored encoding
  ends the loop: the handler of \<^verbatim>\<open>load_known_faces\<close> catches the exception and leaves
  the index empty. Nothing is raised to the caller (\<open>load_known_faces\<close> is total).
\<close>

theorem corrupt_record_empties_index:
  "p \<in> set profiles \<Longrightarrow> truthy (face_encoding p) \<Longrightarrow> loads (the (face_encoding p)) = Inl e \<Longrightarrow>
     known_faces (load_known_faces loads (Inr profiles) self) = []"
proof -
  assume a: "p \<in> set profiles" "truthy (face_encoding p)" "loads (the (face_encoding p)) = Inl e"
  from a load_loop_fail [where p = p and ps = profiles and loads = loads and e = e and kf = "[]"]
  obtain e' where "load_loop loads profiles [] = Inl e'" by blast
  then show ?thesis by (simp add: load_known_faces_def)
qed

theorem corrupt_record_empties_index_witness:
  "ex_profile 2 (Some [0]) True
     \<in> set [ex_profile 1 (Some [7]) True, ex_profile 2 (Some [0]) True, ex_profile 3 (Some [7]) True]
   \<and> truthy (face_encoding (ex_profile 2 (Some [0]) True))
   \<and> ex_loads (the (face_encoding (ex_profile 2 (Some [0]) True))) = Inl UnpicklingError
   \<and> known_faces (load_known_faces ex_loads
        (Inr [ex_profile 1 (Some [7]) True, ex_profile 2 (Some [0]) True,
              ex_profile 3 (Some [7]) True])
        (ex_recognizer [] [])) = []"
proof -
  let ?p = "ex_profile 2 (Some [0]) True"
  let ?ps = "[ex_profile 1 (Some [7]) True, ex_profile 2 (Some [0]) True, ex_profile 3 (Some [7]) True]"
  have a: "?p \<in> set ?ps" by simp
  have b: "truthy (face_encoding ?p)" by (simp add: ex_profile_def truthy_def)
  have c: "ex_loads (the (face_encoding ?p)) = Inl UnpicklingError"
    by (simp add: ex_profile_def ex_loads_def)
  from a b c corrupt_record_empties_index [where p = ?p and profiles = ?ps and loads = ex_loads
      and e = UnpicklingError and self = "ex_recognizer [] []"]
  show ?thesis by blast
qed

text \<open>
  Claim C6. The help text of the field \<^verbatim>\<open>FaceProfile.is_active\<close> in
  \<^verbatim>\<open>attendance/models.py\<close> reads
  \<^verbatim>\<open>Designates whether this face profile should be treated as active\<close>, and the
  claim excludes the records marked inactive from the rebuilt index. \<^verbatim>\<open>load_known_faces\<close> does not:
  it reads \<^verbatim>\<open>FaceProfile.objects.all()\<close> and tests \<^verbatim>\<open>profile.face_encoding\<close> only.
  Evaluated on a single inactive record with a stored encoding, it puts that record's
  user into the index.
\<close>

theorem inactive_record_is_loaded:
  "\<not> is_active (ex_profile 1 (Some [7]) False)
   \<and> map_of (known_faces (load_known_faces ex_loads (Inr [ex_profile 1 (Some [7]) False])
                (ex_recognizer [] []))) 1
       = Some \<lparr>encoding = [1, 0], entry_user_id = 1\<rparr>"
  by (simp add: load_known_faces_def ex_loads_def ex_profile_def truthy_def)

text \<open>
  What the loop of \<^verbatim>\<open>load_known_faces\<close> computes when every stored encoding
  deserialises: the keys of the index are the user identities of the records with a
  stored, non-empty encoding, and the active flag plays no part.
\<close>

lemma load_known_faces_keys:
  "\<forall>p \<in> set profiles. truthy (face_encoding p) \<longrightarrow>
       (\<exists>enc. loads (the (face_encoding p)) = Inr enc) \<Longrightarrow>
     fst ` set (known_faces (load_known_faces loads (Inr profiles) self))
       = user_id ` {p \<in> set profiles. truthy (face_encoding p)}
     \<and> (distinct (map user_id profiles) \<longrightarrow>
          (\<forall>p \<in> set profiles. truthy (face_encoding p) \<longrightarrow>
             (\<exists>enc. loads (the (face_encoding p)) = Inr enc \<and>
                map_of (known_faces (load_known_faces loads (Inr profiles) self)) (user_id p)
                  = Some \<lparr>encoding = enc, entry_user_id = user_id p\<rparr>)))"
proof -
  assume "\<forall>p \<in> set profiles. truthy (face_encoding p) \<longrightarrow>
       (\<exists>enc. loads (the (face_encoding p)) = Inr enc)"
  from load_loop_ok [OF this, of "[]"] obtain kf where
    l: "load_loop loads profiles [] = Inr kf" and
    k: "fst ` set kf = user_id ` {p \<in> set profiles. truthy (face_encoding p)}" by auto
  from l have r: "known_faces (load_known_faces loads (Inr profiles) self) = kf"
    by (simp add: load_known_faces_def)
  show ?thesis
    unfolding r using k load_loop_entry [OF l] by blast
qed

end
